theory Spec2Isabelle
  imports Main "HOL-Library.Word" "HOL-Library.Sublist"
begin

section \<open>Strings\<close>

text \<open>
  A JavaScript string is a sequence of 16-bit code units. Task texts, log messages,
  storage keys and the serialized form held by \<open>localStorage\<close> are all such strings.
  \<open>ascii\<close> writes a literal of the source whose characters are all ASCII.
\<close>

type_synonym jschar = "16 word"
type_synonym jsstring = "jschar list"

definition ascii :: "string \<Rightarrow> jsstring" where
  "ascii s = map (\<lambda>c. of_nat (of_char c)) s"

text \<open>
  \<open>String.prototype.trim\<close> strips the code units that ECMAScript calls WhiteSpace or
  LineTerminator from both ends.
\<close>

definition isWhiteSpace :: "jschar \<Rightarrow> bool" where
  "isWhiteSpace c \<longleftrightarrow>
     c = 0x09 \<or> c = 0x0A \<or> c = 0x0B \<or> c = 0x0C \<or> c = 0x0D \<or> c = 0x20 \<or> c = 0xA0 \<or>
     c = 0x1680 \<or> (0x2000 \<le> c \<and> c \<le> 0x200A) \<or> c = 0x2028 \<or> c = 0x2029 \<or>
     c = 0x202F \<or> c = 0x205F \<or> c = 0x3000 \<or> c = 0xFEFF"

definition trim :: "jsstring \<Rightarrow> jsstring" where
  "trim s = rev (dropWhile isWhiteSpace (rev (dropWhile isWhiteSpace s)))"

section \<open>JSON text of an array of strings\<close>

text \<open>
  \<open>JSON.stringify\<close> and \<open>JSON.parse\<close> belong to the JavaScript platform. The program
  only ever serializes arrays of strings, so the two functions are written out for that
  type, following ECMA-262 (SerializeJSONArray without indentation, QuoteJSONString,
  UnicodeEscape, and the JSON grammar for arrays, strings and white space).
\<close>

definition isLeadingSurrogate :: "jschar \<Rightarrow> bool" where
  "isLeadingSurrogate c \<longleftrightarrow> 0xD800 \<le> c \<and> c \<le> 0xDBFF"

definition isTrailingSurrogate :: "jschar \<Rightarrow> bool" where
  "isTrailingSurrogate c \<longleftrightarrow> 0xDC00 \<le> c \<and> c \<le> 0xDFFF"

definition hexDigit :: "nat \<Rightarrow> jschar" where
  "hexDigit n = of_nat (if n < 10 then 48 + n else 87 + n)"

definition UnicodeEscape :: "jschar \<Rightarrow> jsstring" where
  "UnicodeEscape c =
     (let n = unat c
      in [0x5C, 0x75, hexDigit (n div 4096), hexDigit (n div 256 mod 16),
          hexDigit (n div 16 mod 16), hexDigit (n mod 16)])"

text \<open>
  One code point that is not a surrogate pair: the two-character escapes of the table of
  QuoteJSONString, a \<open>\u\<close> escape for control characters and lone surrogates, the
  code unit itself otherwise.
\<close>

definition quoteCodeUnit :: "jschar \<Rightarrow> jsstring" where
  "quoteCodeUnit c =
     (if c = 0x08 then [0x5C, 0x62]
      else if c = 0x09 then [0x5C, 0x74]
      else if c = 0x0A then [0x5C, 0x6E]
      else if c = 0x0C then [0x5C, 0x66]
      else if c = 0x0D then [0x5C, 0x72]
      else if c = 0x22 then [0x5C, 0x22]
      else if c = 0x5C then [0x5C, 0x5C]
      else if c < 0x20 \<or> isLeadingSurrogate c \<or> isTrailingSurrogate c then UnicodeEscape c
      else [c])"

fun quoteChars :: "jsstring \<Rightarrow> jsstring" where
  "quoteChars [] = []"
| "quoteChars [c] = quoteCodeUnit c"
| "quoteChars (c # d # cs) =
     (if isLeadingSurrogate c \<and> isTrailingSurrogate d then c # d # quoteChars cs
      else quoteCodeUnit c @ quoteChars (d # cs))"

definition QuoteJSONString :: "jsstring \<Rightarrow> jsstring" where
  "QuoteJSONString s = 0x22 # quoteChars s @ [0x22]"

fun joinComma :: "jsstring list \<Rightarrow> jsstring" where
  "joinComma [] = []"
| "joinComma [x] = x"
| "joinComma (x # y # ys) = x @ 0x2C # joinComma (y # ys)"

definition JSON_stringify :: "jsstring list \<Rightarrow> jsstring" where
  "JSON_stringify xs = 0x5B # joinComma (map QuoteJSONString xs) @ [0x5D]"

text \<open>
  The reader. \<open>None\<close> stands for the \<open>SyntaxError\<close> of \<open>JSON.parse\<close>, and also for a
  text that is JSON but not an array of strings, a value this model has no type for.
\<close>

definition isJSONWhiteSpace :: "jschar \<Rightarrow> bool" where
  "isJSONWhiteSpace c \<longleftrightarrow> c = 0x09 \<or> c = 0x0A \<or> c = 0x0D \<or> c = 0x20"

definition skipWs :: "jsstring \<Rightarrow> jsstring" where
  "skipWs s = dropWhile isJSONWhiteSpace s"

definition hexValue :: "jschar \<Rightarrow> nat option" where
  "hexValue c =
     (if 0x30 \<le> c \<and> c \<le> 0x39 then Some (unat c - 48)
      else if 0x61 \<le> c \<and> c \<le> 0x66 then Some (unat c - 87)
      else if 0x41 \<le> c \<and> c \<le> 0x46 then Some (unat c - 55)
      else None)"

definition hex4 :: "jschar \<Rightarrow> jschar \<Rightarrow> jschar \<Rightarrow> jschar \<Rightarrow> jschar option" where
  "hex4 a b c d =
     (case (hexValue a, hexValue b, hexValue c, hexValue d) of
        (Some p, Some q, Some r, Some s) \<Rightarrow> Some (of_nat (((p * 16 + q) * 16 + r) * 16 + s))
      | _ \<Rightarrow> None)"

definition unescape :: "jschar \<Rightarrow> jschar option" where
  "unescape e =
     (if e = 0x22 then Some 0x22
      else if e = 0x5C then Some 0x5C
      else if e = 0x2F then Some 0x2F
      else if e = 0x62 then Some 0x08
      else if e = 0x66 then Some 0x0C
      else if e = 0x6E then Some 0x0A
      else if e = 0x72 then Some 0x0D
      else if e = 0x74 then Some 0x09
      else None)"

definition consChar :: "jschar \<Rightarrow> (jsstring \<times> jsstring) option \<Rightarrow> (jsstring \<times> jsstring) option" where
  "consChar c r = (case r of None \<Rightarrow> None | Some (v, rest) \<Rightarrow> Some (c # v, rest))"

text \<open>
  The characters of a JSON string after its opening quote: the decoded string and the
  input that follows the closing quote.
\<close>

fun parseStringChars :: "jsstring \<Rightarrow> (jsstring \<times> jsstring) option" where
  "parseStringChars [] = None"
| "parseStringChars (c # cs) =
     (if c = 0x22 then Some ([], cs)
      else if c = 0x5C then
        (case cs of
           [] \<Rightarrow> None
         | e # es \<Rightarrow>
             if e = 0x75 then
               (case es of
                  h1 # h2 # h3 # h4 # rest \<Rightarrow>
                    (case hex4 h1 h2 h3 h4 of
                       None \<Rightarrow> None
                     | Some u \<Rightarrow> consChar u (parseStringChars rest))
                | _ \<Rightarrow> None)
             else
               (case unescape e of
                  None \<Rightarrow> None
                | Some u \<Rightarrow> consChar u (parseStringChars es)))
      else if c < 0x20 then None
      else consChar c (parseStringChars cs))"

lemma parseStringChars_shorter:
  "parseStringChars s = Some (v, r) \<Longrightarrow> length r < length s"
proof (induction s arbitrary: v r rule: parseStringChars.induct)
  case 1
  then show ?case by simp
next
  case (2 c cs)
  then show ?case
    by (auto simp: consChar_def split: if_splits list.splits option.splits prod.splits)
       fastforce+
qed

lemma skipWs_length: "length (skipWs s) \<le> length s"
  by (simp add: skipWs_def length_dropWhile_le)

text \<open>
  The elements of a non-empty array, from the point where a string is expected up to the
  end of the text.
\<close>

function parseElements :: "jsstring \<Rightarrow> jsstring list option" where
  "parseElements s =
     (case skipWs s of
        [] \<Rightarrow> None
      | q # cs \<Rightarrow>
          if q = 0x22 then
            (case parseStringChars cs of
               None \<Rightarrow> None
             | Some (v, r) \<Rightarrow>
                 (case skipWs r of
                    [] \<Rightarrow> None
                  | d # ds \<Rightarrow>
                      if d = 0x2C then map_option (Cons v) (parseElements ds)
                      else if d = 0x5D then (if skipWs ds = [] then Some [v] else None)
                      else None))
          else None)"
  by pat_completeness auto

termination
proof (relation "measure length", goal_cases)
  case 1
  then show ?case by simp
next
  case (2 s q cs x2 v r d ds)
  have "length (q # cs) \<le> length s"
    using 2(1) skipWs_length [of s] by simp
  moreover have "length r < length cs"
  proof -
    from 2 have "parseStringChars cs = Some (v, r)" by simp
    then show ?thesis by (rule parseStringChars_shorter)
  qed
  moreover have "length (d # ds) \<le> length r"
    using 2 skipWs_length [of r] by simp
  ultimately show ?case by simp
qed

declare parseElements.simps [simp del]

definition JSON_parse :: "jsstring \<Rightarrow> jsstring list option" where
  "JSON_parse s =
     (case skipWs s of
        [] \<Rightarrow> None
      | b # cs \<Rightarrow>
          if b = 0x5B then
            (case skipWs cs of
               [] \<Rightarrow> None
             | e # es \<Rightarrow>
                 if e = 0x5D then (if skipWs es = [] then Some [] else None)
                 else parseElements cs)
          else None)"

section \<open>The state of the page\<close>

text \<open>
  Everything \<open>script.js\<close> reads or writes, as one record that the operations pass along:
  \<^item> \<open>localStorage\<close>: what the key-value store of the browser holds;
  \<^item> \<open>tasks\<close>, \<open>taskAdded\<close>, \<open>taskRemoved\<close>: the fields of the \<open>TaskManager\<close>; an
    \<open>Observer\<close> holds nothing but its \<open>subscribers\<close>, so each is that list;
  \<^item> \<open>logs\<close>: the field of the \<open>LogManager\<close>;
  \<^item> \<open>taskList\<close>, \<open>logList\<close>: the rows of the two lists of the document, each row with
    the text that its delete button's listener has captured;
  \<^item> \<open>taskInput\<close>: the value of the entry field;
  \<^item> \<open>listeners\<close>: the listeners that \<open>UI.init\<close> has put on the submit button and the
    entry field;
  \<^item> \<open>alerts\<close>: the messages shown with \<open>alert\<close>, oldest first;
  \<^item> \<open>notifications\<close>: a history of the calls of \<open>Observer.notify\<close> (which observer,
    which data), recorded as \<open>notify\<close> is entered;
  \<^item> \<open>deliveries\<close>: a history of the calls \<open>fn(data)\<close> that \<open>notify\<close> makes (which
    subscriber, which data), recorded as the subscriber is entered.
  No operation reads the two histories; they make "was broadcast" and "was delivered"
  statements about states.

  The document is taken to hold the four elements that \<open>UI\<close> looks up by id, and reading
  the store with \<open>getItem\<close> is taken not to throw.

  A subscriber is a closure over the page. The program creates exactly two, both in
  \<open>UI.init\<close>, so a subscriber is represented by its name and run by \<open>call\<close> below.

  Of the errors, \<open>TypeError\<close> and \<open>QuotaExceededError\<close> are the exceptions of those
  names. \<open>NotStringArray\<close> ends a load whose stored text is not the JSON text of an array
  of strings: there \<open>JSON.parse\<close> throws a \<open>SyntaxError\<close>, or returns a value of another
  shape with which the program goes on; the model follows neither and stops.
\<close>

datatype error = TypeError | QuotaExceededError | NotStringArray

datatype callback = OnTaskAdded | OnTaskRemoved

datatype observer = TaskAdded | TaskRemoved

datatype listener = AddTaskButtonClick | TaskInputKeydown

record world =
  localStorage :: "jsstring \<rightharpoonup> jsstring"
  tasks :: "jsstring list"
  taskAdded :: "callback list"
  taskRemoved :: "callback list"
  logs :: "jsstring list"
  taskList :: "jsstring list"
  logList :: "jsstring list"
  taskInput :: jsstring
  listeners :: "listener list"
  alerts :: "jsstring list"
  notifications :: "(observer \<times> jsstring) list"
  deliveries :: "(callback \<times> jsstring) list"

text \<open>
  A call returns, or throws in the state it has reached: JavaScript undoes nothing.
\<close>

datatype outcome = Normal world | Throw error world

fun state_of :: "outcome \<Rightarrow> world" where
  "state_of (Normal w) = w"
| "state_of (Throw e w) = w"

fun andThen :: "outcome \<Rightarrow> (world \<Rightarrow> outcome) \<Rightarrow> outcome" where
  "andThen (Normal w) f = f w"
| "andThen (Throw e w) f = Throw e w"

fun thrown :: "outcome \<Rightarrow> error option" where
  "thrown (Normal w) = None"
| "thrown (Throw e w) = Some e"

definition key_tasks :: jsstring where
  "key_tasks = ascii ''tasks''"

definition key_logs :: jsstring where
  "key_logs = ascii ''logs''"

section \<open>The browser\<close>

text \<open>
  Two things that the operations depend on are decided by the browser and not by the
  repository; they are the two fields of the parameter \<open>b\<close> of the operations.

  \<open>hasButton\<close>. \<open>addTaskToUI\<close> and \<open>addLogToUI\<close> build a list item by assigning to
  \<open>innerHTML\<close> the same template, with the text interpolated as it is between \<open>span\<close>
  tags and followed by a \<open>button\<close>; then \<open>li.querySelector('button')\<close> is dereferenced
  without a test. What the query returns is decided by the HTML parser: \<open>hasButton b txt\<close>
  is true when the parsed fragment contains a button element. When it is false the query
  yields \<open>null\<close>, \<open>deleteButton.addEventListener\<close> throws a \<open>TypeError\<close>, and the row is
  never appended. When it is true the row is appended with its listener; what else markup
  in the text may bring into the document acts, if at all, in later events of its own and
  is no part of the call.

  \<open>accepts\<close>. \<open>localStorage.setItem(key, value)\<close> stores the value, or throws a
  \<open>QuotaExceededError\<close> and leaves the store as it was when the browser has no room for
  it: \<open>accepts b store key value\<close> is true when the write into \<open>store\<close> is taken.
\<close>

record browser =
  hasButton :: "jsstring \<Rightarrow> bool"
  accepts :: "(jsstring \<rightharpoonup> jsstring) \<Rightarrow> jsstring \<Rightarrow> jsstring \<Rightarrow> bool"

definition setItem :: "browser \<Rightarrow> jsstring \<Rightarrow> jsstring \<Rightarrow> world \<Rightarrow> outcome" where
  "setItem b key val w =
     (if accepts b (localStorage w) key val
      then Normal (w\<lparr>localStorage := (localStorage w)(key \<mapsto> val)\<rparr>)
      else Throw QuotaExceededError w)"

definition addTaskToUI :: "browser \<Rightarrow> jsstring \<Rightarrow> world \<Rightarrow> outcome" where
  "addTaskToUI b task w =
     (if hasButton b task then Normal (w\<lparr>taskList := taskList w @ [task]\<rparr>)
      else Throw TypeError w)"

definition addLogToUI :: "browser \<Rightarrow> jsstring \<Rightarrow> world \<Rightarrow> outcome" where
  "addLogToUI b log w =
     (if hasButton b log then Normal (w\<lparr>logList := logList w @ [log]\<rparr>)
      else Throw TypeError w)"

text \<open>
  For evaluation at concrete inputs two browsers are used. Both parse with
  \<open>sampleHasButton\<close>, which says what a browser does on three kinds of text:
  \<^item> a text without \<open><\<close> is character data, the button of the template follows it: true;
  \<^item> the text \<open><a title=\<close> standing directly between the \<open>span\<close> tags, as in a task
    row: the attribute value is unquoted and ends at the \<open>>\<close> of \<open></span>\<close>, the button is
    parsed inside the anchor: true;
  \<^item> a text with \<open><!--\<close>, which turns the rest of the template into a comment, or with
    \<open><a title=\<close> followed by a double quote, as in the log rows of that task, where the
    quoted attribute value runs into the start tag of the button and swallows it: false.
  On other texts with \<open><\<close> it is false as well, and is not used there.

  The store of \<open>sampleBrowser\<close> takes every write, as a store far from its quota takes the
  short texts written below. The store of \<open>fullBrowser\<close> takes none: every \<open>setItem\<close>
  throws, as in a private window whose quota is zero, while reading works.
\<close>

definition sampleHasButton :: "jsstring \<Rightarrow> bool" where
  "sampleHasButton txt = (if 0x3C \<in> set txt then txt = ascii ''<a title='' else True)"

definition sampleBrowser :: browser where
  "sampleBrowser = \<lparr>hasButton = sampleHasButton, accepts = (\<lambda>store key val. True)\<rparr>"

definition fullBrowser :: browser where
  "fullBrowser = \<lparr>hasButton = sampleHasButton, accepts = (\<lambda>store key val. False)\<rparr>"

section \<open>LogManager\<close>

definition saveLogsToStorage :: "browser \<Rightarrow> world \<Rightarrow> outcome" where
  "saveLogsToStorage b w = setItem b key_logs (JSON_stringify (logs w)) w"

definition addLog :: "browser \<Rightarrow> jsstring \<Rightarrow> world \<Rightarrow> outcome" where
  "addLog b log w = saveLogsToStorage b (w\<lparr>logs := logs w @ [log]\<rparr>)"

definition removeLog :: "browser \<Rightarrow> jsstring \<Rightarrow> world \<Rightarrow> outcome" where
  "removeLog b log w = saveLogsToStorage b (w\<lparr>logs := filter (\<lambda>l. l \<noteq> log) (logs w)\<rparr>)"

text \<open>
  \<open>logs ? JSON.parse(logs) : []\<close>: \<open>getItem\<close> yields \<open>null\<close> for an absent key, and both
  \<open>null\<close> and the empty string are falsy.
\<close>

definition loadLogsFromStorage :: "world \<Rightarrow> error + jsstring list" where
  "loadLogsFromStorage w =
     (case localStorage w key_logs of
        None \<Rightarrow> Inr []
      | Some s \<Rightarrow>
          if s = [] then Inr []
          else (case JSON_parse s of None \<Rightarrow> Inl NotStringArray | Some xs \<Rightarrow> Inr xs))"

definition new_LogManager :: "world \<Rightarrow> outcome" where
  "new_LogManager w =
     (case loadLogsFromStorage w of
        Inl e \<Rightarrow> Throw e w
      | Inr xs \<Rightarrow> Normal (w\<lparr>logs := xs\<rparr>))"

section \<open>The two subscribers and Observer\<close>

text \<open>The template literals of lines 107-108 and 112-113.\<close>

definition msgAdded :: "jsstring \<Rightarrow> jsstring" where
  "msgAdded task = ascii ''T'' @ [0xE2] @ ascii ''che ajout'' @ [0xE9] @ ascii ''e: '' @ [0x22] @ task @ [0x22]"

definition msgRemoved :: "jsstring \<Rightarrow> jsstring" where
  "msgRemoved task = ascii ''T'' @ [0xE2] @ ascii ''che supprim'' @ [0xE9] @ ascii ''e: '' @ [0x22] @ task @ [0x22]"

definition entered :: "callback \<Rightarrow> jsstring \<Rightarrow> world \<Rightarrow> world" where
  "entered fn data w = w\<lparr>deliveries := deliveries w @ [(fn, data)]\<rparr>"

fun call :: "browser \<Rightarrow> callback \<Rightarrow> jsstring \<Rightarrow> world \<Rightarrow> outcome" where
  "call b OnTaskAdded task w =
     andThen (addTaskToUI b task (entered OnTaskAdded task w)) (\<lambda>w.
     andThen (addLogToUI b (msgAdded task) w) (\<lambda>w.
     addLog b (msgAdded task) w))"
| "call b OnTaskRemoved task w =
     andThen (addLogToUI b (msgRemoved task) (entered OnTaskRemoved task w)) (\<lambda>w.
     addLog b (msgRemoved task) w)"

text \<open>
  \<open>subscribers.forEach(fn => fn(data))\<close>: in order, stopping at the first that throws.
  No subscriber changes a subscriber list, so the list is passed as it stands.
\<close>

fun forEach :: "browser \<Rightarrow> callback list \<Rightarrow> jsstring \<Rightarrow> world \<Rightarrow> outcome" where
  "forEach b [] data w = Normal w"
| "forEach b (fn # fns) data w = andThen (call b fn data w) (forEach b fns data)"

fun subscribers :: "observer \<Rightarrow> world \<Rightarrow> callback list" where
  "subscribers TaskAdded w = taskAdded w"
| "subscribers TaskRemoved w = taskRemoved w"

fun subscribe :: "observer \<Rightarrow> callback \<Rightarrow> world \<Rightarrow> world" where
  "subscribe TaskAdded fn w = w\<lparr>taskAdded := taskAdded w @ [fn]\<rparr>"
| "subscribe TaskRemoved fn w = w\<lparr>taskRemoved := taskRemoved w @ [fn]\<rparr>"

definition notify :: "browser \<Rightarrow> observer \<Rightarrow> jsstring \<Rightarrow> world \<Rightarrow> outcome" where
  "notify b obs data w =
     forEach b (subscribers obs w) data
       (w\<lparr>notifications := notifications w @ [(obs, data)]\<rparr>)"

section \<open>TaskManager\<close>

definition saveTasksToStorage :: "browser \<Rightarrow> world \<Rightarrow> outcome" where
  "saveTasksToStorage b w = setItem b key_tasks (JSON_stringify (tasks w)) w"

definition addTask :: "browser \<Rightarrow> jsstring \<Rightarrow> world \<Rightarrow> outcome" where
  "addTask b task w =
     andThen (saveTasksToStorage b (w\<lparr>tasks := tasks w @ [task]\<rparr>)) (notify b TaskAdded task)"

definition removeTask :: "browser \<Rightarrow> jsstring \<Rightarrow> world \<Rightarrow> outcome" where
  "removeTask b task w =
     andThen (saveTasksToStorage b (w\<lparr>tasks := filter (\<lambda>t. t \<noteq> task) (tasks w)\<rparr>))
       (notify b TaskRemoved task)"

definition loadTasksFromStorage :: "world \<Rightarrow> error + jsstring list" where
  "loadTasksFromStorage w =
     (case localStorage w key_tasks of
        None \<Rightarrow> Inr []
      | Some s \<Rightarrow>
          if s = [] then Inr []
          else (case JSON_parse s of None \<Rightarrow> Inl NotStringArray | Some xs \<Rightarrow> Inr xs))"

definition new_TaskManager :: "world \<Rightarrow> outcome" where
  "new_TaskManager w =
     (case loadTasksFromStorage w of
        Inl e \<Rightarrow> Throw e w
      | Inr xs \<Rightarrow> Normal (w\<lparr>tasks := xs, taskAdded := [], taskRemoved := []\<rparr>))"

section \<open>UI\<close>

definition alertText :: jsstring where
  "alertText = ascii ''Veuillez saisir une t'' @ [0xE2] @ ascii ''che !''"

definition handleAddTask :: "browser \<Rightarrow> world \<Rightarrow> outcome" where
  "handleAddTask b w =
     (let task = trim (taskInput w)
      in if task \<noteq> [] then
           andThen (addTask b task w) (\<lambda>w. Normal (w\<lparr>taskInput := []\<rparr>))
         else Normal (w\<lparr>alerts := alerts w @ [alertText]\<rparr>))"

text \<open>The two \<open>forEach\<close> loops that restore the rows at startup.\<close>

fun restoreTasks :: "browser \<Rightarrow> jsstring list \<Rightarrow> world \<Rightarrow> outcome" where
  "restoreTasks b [] w = Normal w"
| "restoreTasks b (t # ts) w = andThen (addTaskToUI b t w) (restoreTasks b ts)"

fun restoreLogs :: "browser \<Rightarrow> jsstring list \<Rightarrow> world \<Rightarrow> outcome" where
  "restoreLogs b [] w = Normal w"
| "restoreLogs b (l # ls) w = andThen (addLogToUI b l w) (restoreLogs b ls)"

definition init :: "browser \<Rightarrow> world \<Rightarrow> outcome" where
  "init b w =
     andThen (restoreTasks b (tasks w) w) (\<lambda>w.
     andThen (restoreLogs b (logs w) w) (\<lambda>w.
     Normal (subscribe TaskRemoved OnTaskRemoved (subscribe TaskAdded OnTaskAdded
       (w\<lparr>listeners := listeners w @ [AddTaskButtonClick, TaskInputKeydown]\<rparr>)))))"

text \<open>
  The listener of the entry field: \<open>Enter\<close> submits, any other key does nothing here.
\<close>

definition onKeydown :: "browser \<Rightarrow> jsstring \<Rightarrow> world \<Rightarrow> outcome" where
  "onKeydown b key w = (if key = ascii ''Enter'' then handleAddTask b w else Normal w)"

text \<open>
  The click listeners of the delete buttons. A row is named by its position in its list;
  \<open>None\<close> when the list has no such row, so that there is nothing to click.
  \<open>li.remove()\<close> takes that one row out, and is not reached when the removal throws.
\<close>

definition removeRow :: "nat \<Rightarrow> jsstring list \<Rightarrow> jsstring list" where
  "removeRow i rows = take i rows @ drop (Suc i) rows"

definition onTaskDeleteClick :: "browser \<Rightarrow> nat \<Rightarrow> world \<Rightarrow> outcome option" where
  "onTaskDeleteClick b i w =
     (if i < length (taskList w) then
        Some (andThen (removeTask b (taskList w ! i) w)
                (\<lambda>w. Normal (w\<lparr>taskList := removeRow i (taskList w)\<rparr>)))
      else None)"

definition onLogDeleteClick :: "browser \<Rightarrow> nat \<Rightarrow> world \<Rightarrow> outcome option" where
  "onLogDeleteClick b i w =
     (if i < length (logList w) then
        Some (andThen (removeLog b (logList w ! i) w)
                (\<lambda>w. Normal (w\<lparr>logList := removeRow i (logList w)\<rparr>)))
      else None)"

text \<open>
  The \<open>DOMContentLoaded\<close> handler: the page as the browser hands it over, with whatever
  the store holds, then the three constructors of lines 163-165.
\<close>

definition loaded :: "(jsstring \<rightharpoonup> jsstring) \<Rightarrow> world" where
  "loaded store =
     \<lparr>localStorage = store, tasks = [], taskAdded = [], taskRemoved = [], logs = [],
      taskList = [], logList = [], taskInput = [], listeners = [], alerts = [],
      notifications = [], deliveries = []\<rparr>"

definition main :: "browser \<Rightarrow> (jsstring \<rightharpoonup> jsstring) \<Rightarrow> outcome" where
  "main b store =
     andThen (new_TaskManager (loaded store)) (\<lambda>w.
     andThen (new_LogManager w) (\<lambda>w.
     init b w))"

text \<open>
  The wiring that \<open>init\<close> leaves behind and that nothing changes afterwards: one
  subscriber on each observer.
\<close>

definition wired :: "world \<Rightarrow> bool" where
  "wired w \<longleftrightarrow> taskAdded w = [OnTaskAdded] \<and> taskRemoved w = [OnTaskRemoved]"

text \<open>
  What a subscriber leaves alone: the tasks and their stored copy, the subscriber lists,
  the history of broadcasts, the entry field, the alerts and the listeners.
\<close>

definition subscriberFrame :: "world \<Rightarrow> world \<Rightarrow> bool" where
  "subscriberFrame w w' \<longleftrightarrow>
     tasks w' = tasks w \<and> taskAdded w' = taskAdded w \<and> taskRemoved w' = taskRemoved w \<and>
     localStorage w' key_tasks = localStorage w key_tasks \<and>
     notifications w' = notifications w \<and> taskInput w' = taskInput w \<and>
     alerts w' = alerts w \<and> listeners w' = listeners w"

text \<open>The page after startup on an empty store, with room in the store and without.\<close>

definition freshPage :: world where
  "freshPage = state_of (main sampleBrowser Map.empty)"

definition fullPage :: world where
  "fullPage = state_of (main fullBrowser Map.empty)"

text \<open>
  The page after the user has submitted the text \<open><a title=\<close> and then clicked the
  delete button of its row once.
\<close>

definition staleRowPage :: world where
  "staleRowPage =
     state_of (the (onTaskDeleteClick sampleBrowser 0
       (state_of (handleAddTask sampleBrowser (freshPage\<lparr>taskInput := ascii ''<a title=''\<rparr>)))))"

section \<open>Writing and reading back the JSON text\<close>























section \<open>What a subscriber leaves alone\<close>

lemma keys_distinct: "key_tasks \<noteq> key_logs"
  by (simp add: key_tasks_def key_logs_def ascii_def)

lemma subscriberFrame_refl: "subscriberFrame w w"
  by (simp add: subscriberFrame_def)

lemma subscriberFrame_trans:
  "subscriberFrame w w1 \<Longrightarrow> subscriberFrame w1 w2 \<Longrightarrow> subscriberFrame w w2"
  unfolding subscriberFrame_def by auto

lemma addLog_frame: "subscriberFrame w (state_of (addLog b l w))"
  using keys_distinct
  by (simp add: subscriberFrame_def addLog_def saveLogsToStorage_def setItem_def)

lemma addTaskToUI_frame: "subscriberFrame w (state_of (addTaskToUI b t w))"
  by (simp add: subscriberFrame_def addTaskToUI_def)

lemma addLogToUI_frame: "subscriberFrame w (state_of (addLogToUI b t w))"
  by (simp add: subscriberFrame_def addLogToUI_def)

lemma entered_frame: "subscriberFrame w (entered fn d w)"
  by (simp add: subscriberFrame_def entered_def)

lemma andThen_frame:
  assumes "subscriberFrame w (state_of out)"
    and "\<And>w1. subscriberFrame w1 (state_of (f w1))"
  shows "subscriberFrame w (state_of (andThen out f))"
proof (cases out)
  case (Normal w1)
  then show ?thesis
    using assms(1) assms(2) [of w1] by (auto intro: subscriberFrame_trans)
next
  case (Throw e w1)
  then show ?thesis using assms(1) by simp
qed

lemma call_frame: "subscriberFrame w (state_of (call b fn d w))"
proof (rule subscriberFrame_trans [OF entered_frame [of w fn d]], cases fn)
  case OnTaskAdded
  show "subscriberFrame (entered fn d w) (state_of (call b fn d w))"
    unfolding OnTaskAdded call.simps
    by (intro andThen_frame addTaskToUI_frame addLogToUI_frame addLog_frame)
next
  case OnTaskRemoved
  show "subscriberFrame (entered fn d w) (state_of (call b fn d w))"
    unfolding OnTaskRemoved call.simps
    by (intro andThen_frame addLogToUI_frame addLog_frame)
qed

lemma forEach_frame: "subscriberFrame w (state_of (forEach b fns d w))"
proof (induction fns arbitrary: w)
  case Nil
  show ?case by (simp add: subscriberFrame_refl)
next
  case (Cons fn fns)
  show ?case
    unfolding forEach.simps by (rule andThen_frame [OF call_frame Cons.IH])
qed

lemma notify_frame:
  "subscriberFrame (w\<lparr>notifications := notifications w @ [(obs, d)]\<rparr>)
     (state_of (notify b obs d w))"
  unfolding notify_def by (rule forEach_frame)

section \<open>Who is called\<close>

lemma deliveries_call: "deliveries (state_of (call b fn d w)) = deliveries w @ [(fn, d)]"
  by (cases fn)
     (simp_all add: entered_def addTaskToUI_def addLogToUI_def addLog_def saveLogsToStorage_def
        setItem_def)

lemma deliveries_forEach:
  "prefix (deliveries w) (deliveries (state_of (forEach b fns d w))) \<and>
   prefix (deliveries (state_of (forEach b fns d w))) (deliveries w @ map (\<lambda>fn. (fn, d)) fns) \<and>
   (fns \<noteq> [] \<longrightarrow> deliveries (state_of (forEach b fns d w)) \<noteq> deliveries w) \<and>
   (thrown (forEach b fns d w) = None \<longrightarrow>
      deliveries (state_of (forEach b fns d w)) = deliveries w @ map (\<lambda>fn. (fn, d)) fns)"
proof (induction fns arbitrary: w)
  case Nil
  show ?case by simp
next
  case (Cons fn fns)
  let ?D = "deliveries (state_of (forEach b (fn # fns) d w))"
  show ?case
  proof (cases "call b fn d w")
    case (Normal w1)
    have d1: "deliveries w1 = deliveries w @ [(fn, d)]"
      using deliveries_call [of b fn d w] Normal by simp
    have run: "forEach b (fn # fns) d w = forEach b fns d w1"
      using Normal by simp
    from Cons.IH [of w1] have
      A: "prefix (deliveries w @ [(fn, d)]) ?D" and
      B: "prefix ?D ((deliveries w @ [(fn, d)]) @ map (\<lambda>fn. (fn, d)) fns)" and
      C: "thrown (forEach b (fn # fns) d w) = None \<longrightarrow>
            ?D = (deliveries w @ [(fn, d)]) @ map (\<lambda>fn. (fn, d)) fns"
      unfolding run d1 by blast+
    have 1: "prefix (deliveries w) ?D"
      using A by (rule append_prefixD)
    have 2: "prefix ?D (deliveries w @ map (\<lambda>fn. (fn, d)) (fn # fns))"
      using B by simp
    have 3: "?D \<noteq> deliveries w"
      using prefix_length_le [OF A] by auto
    have 4: "thrown (forEach b (fn # fns) d w) = None \<longrightarrow>
            ?D = deliveries w @ map (\<lambda>fn. (fn, d)) (fn # fns)"
      using C by simp
    from 1 2 3 4 show ?thesis by blast
  next
    case (Throw e w1)
    have d1: "deliveries w1 = deliveries w @ [(fn, d)]"
      using deliveries_call [of b fn d w] Throw by simp
    have run: "forEach b (fn # fns) d w = Throw e w1"
      using Throw by simp
    show ?thesis unfolding run by (simp add: d1)
  qed
qed

section \<open>TaskManager and LogManager, whatever the subscribers do\<close>

lemma andThen_forEach_Nil: "andThen out (forEach b [] d) = out"
  by (cases out) simp_all

lemma addTask_rejected:
  "\<not> accepts b (localStorage w) key_tasks (JSON_stringify (tasks w @ [t])) \<Longrightarrow>
   addTask b t w = Throw QuotaExceededError (w\<lparr>tasks := tasks w @ [t]\<rparr>)"
  by (simp add: addTask_def saveTasksToStorage_def setItem_def)

lemma addTask_accepted:
  "accepts b (localStorage w) key_tasks (JSON_stringify (tasks w @ [t])) \<Longrightarrow>
   addTask b t w = notify b TaskAdded t
     (w\<lparr>tasks := tasks w @ [t],
        localStorage := (localStorage w)(key_tasks \<mapsto> JSON_stringify (tasks w @ [t]))\<rparr>)"
  by (simp add: addTask_def saveTasksToStorage_def setItem_def)

lemma removeTask_rejected:
  "\<not> accepts b (localStorage w) key_tasks (JSON_stringify (filter (\<lambda>x. x \<noteq> t) (tasks w))) \<Longrightarrow>
   removeTask b t w = Throw QuotaExceededError (w\<lparr>tasks := filter (\<lambda>x. x \<noteq> t) (tasks w)\<rparr>)"
  by (simp add: removeTask_def saveTasksToStorage_def setItem_def)

lemma removeTask_accepted:
  "accepts b (localStorage w) key_tasks (JSON_stringify (filter (\<lambda>x. x \<noteq> t) (tasks w))) \<Longrightarrow>
   removeTask b t w = notify b TaskRemoved t
     (w\<lparr>tasks := filter (\<lambda>x. x \<noteq> t) (tasks w),
        localStorage := (localStorage w)
          (key_tasks \<mapsto> JSON_stringify (filter (\<lambda>x. x \<noteq> t) (tasks w)))\<rparr>)"
  by (simp add: removeTask_def saveTasksToStorage_def setItem_def)

lemma tasks_addTask: "tasks (state_of (addTask b t w)) = tasks w @ [t]"
proof (cases "accepts b (localStorage w) key_tasks (JSON_stringify (tasks w @ [t]))")
  case True
  show ?thesis
    unfolding addTask_accepted [OF True]
    using notify_frame [of _ TaskAdded t b] by (simp add: subscriberFrame_def)
next
  case False
  then show ?thesis by (simp add: addTask_rejected)
qed

lemma tasks_removeTask:
  "tasks (state_of (removeTask b t w)) = filter (\<lambda>x. x \<noteq> t) (tasks w)"
proof (cases "accepts b (localStorage w) key_tasks
    (JSON_stringify (filter (\<lambda>x. x \<noteq> t) (tasks w)))")
  case True
  show ?thesis
    unfolding removeTask_accepted [OF True]
    using notify_frame [of _ TaskRemoved t b] by (simp add: subscriberFrame_def)
next
  case False
  then show ?thesis by (simp add: removeTask_rejected)
qed

lemma stored_addTask:
  "accepts b (localStorage w) key_tasks (JSON_stringify (tasks w @ [t])) \<Longrightarrow>
   localStorage (state_of (addTask b t w)) key_tasks = Some (JSON_stringify (tasks w @ [t]))"
  unfolding addTask_accepted
  using notify_frame [of _ TaskAdded t b] by (simp add: subscriberFrame_def)

lemma stored_removeTask:
  "accepts b (localStorage w) key_tasks (JSON_stringify (filter (\<lambda>x. x \<noteq> t) (tasks w))) \<Longrightarrow>
   localStorage (state_of (removeTask b t w)) key_tasks
   = Some (JSON_stringify (filter (\<lambda>x. x \<noteq> t) (tasks w)))"
  unfolding removeTask_accepted
  using notify_frame [of _ TaskRemoved t b] by (simp add: subscriberFrame_def)

lemma notifications_addTask:
  "accepts b (localStorage w) key_tasks (JSON_stringify (tasks w @ [t])) \<Longrightarrow>
   notifications (state_of (addTask b t w)) = notifications w @ [(TaskAdded, t)]"
  unfolding addTask_accepted
  using notify_frame [of _ TaskAdded t b] by (simp add: subscriberFrame_def)

lemma notifications_removeTask:
  "accepts b (localStorage w) key_tasks (JSON_stringify (filter (\<lambda>x. x \<noteq> t) (tasks w))) \<Longrightarrow>
   notifications (state_of (removeTask b t w)) = notifications w @ [(TaskRemoved, t)]"
  unfolding removeTask_accepted
  using notify_frame [of _ TaskRemoved t b] by (simp add: subscriberFrame_def)

lemma deliveries_addTask:
  assumes "accepts b (localStorage w) key_tasks (JSON_stringify (tasks w @ [t]))"
  shows "prefix (deliveries w) (deliveries (state_of (addTask b t w)))"
    and "prefix (deliveries (state_of (addTask b t w)))
           (deliveries w @ map (\<lambda>fn. (fn, t)) (taskAdded w))"
    and "taskAdded w \<noteq> [] \<longrightarrow> deliveries (state_of (addTask b t w)) \<noteq> deliveries w"
    and "thrown (addTask b t w) = None \<longrightarrow>
           deliveries (state_of (addTask b t w))
             = deliveries w @ map (\<lambda>fn. (fn, t)) (taskAdded w)"
  unfolding addTask_accepted [OF assms] notify_def
  using deliveries_forEach [of
      "w\<lparr>tasks := tasks w @ [t],
         localStorage := (localStorage w)(key_tasks \<mapsto> JSON_stringify (tasks w @ [t])),
         notifications := notifications w @ [(TaskAdded, t)]\<rparr>" b "taskAdded w" t]
  by simp_all

lemma logs_removeLog: "logs (state_of (removeLog b l w)) = filter (\<lambda>x. x \<noteq> l) (logs w)"
  by (simp add: removeLog_def saveLogsToStorage_def setItem_def)

lemma logs_addLog: "logs (state_of (addLog b l w)) = logs w @ [l]"
  by (simp add: addLog_def saveLogsToStorage_def setItem_def)

lemma notifications_removeLog: "notifications (state_of (removeLog b l w)) = notifications w"
  by (simp add: removeLog_def saveLogsToStorage_def setItem_def)

lemma deliveries_removeLog: "deliveries (state_of (removeLog b l w)) = deliveries w"
  by (simp add: removeLog_def saveLogsToStorage_def setItem_def)

lemma tasks_removeLog: "tasks (state_of (removeLog b l w)) = tasks w"
  by (simp add: removeLog_def saveLogsToStorage_def setItem_def)

lemma removeLog_accepted:
  "accepts b (localStorage w) key_logs (JSON_stringify (filter (\<lambda>x. x \<noteq> l) (logs w))) \<Longrightarrow>
   removeLog b l w = Normal
     (w\<lparr>logs := filter (\<lambda>x. x \<noteq> l) (logs w),
        localStorage := (localStorage w)
          (key_logs \<mapsto> JSON_stringify (filter (\<lambda>x. x \<noteq> l) (logs w)))\<rparr>)"
  by (simp add: removeLog_def saveLogsToStorage_def setItem_def)

lemma addLog_accepted:
  "accepts b (localStorage w) key_logs (JSON_stringify (logs w @ [l])) \<Longrightarrow>
   addLog b l w = Normal
     (w\<lparr>logs := logs w @ [l],
        localStorage := (localStorage w)(key_logs \<mapsto> JSON_stringify (logs w @ [l]))\<rparr>)"
  by (simp add: addLog_def saveLogsToStorage_def setItem_def)

lemma length_filter_count:
  "length (filter (\<lambda>x. x \<noteq> v) xs) + count_list xs v = length xs"
  by (induction xs) simp_all




section \<open>Startup and the wiring\<close>

lemma restoreTasks_frame:
  "restoreTasks b ts w = Normal w' \<Longrightarrow>
   w' = w\<lparr>taskList := taskList w @ ts\<rparr> \<and> (\<forall>t \<in> set ts. hasButton b t)"
proof (induction ts arbitrary: w)
  case Nil
  then show ?case by simp
next
  case (Cons t ts)
  then show ?case
    by (cases "hasButton b t") (auto simp: addTaskToUI_def dest!: Cons.IH)
qed

lemma restoreLogs_frame:
  "restoreLogs b ls w = Normal w' \<Longrightarrow>
   w' = w\<lparr>logList := logList w @ ls\<rparr> \<and> (\<forall>l \<in> set ls. hasButton b l)"
proof (induction ls arbitrary: w)
  case Nil
  then show ?case by simp
next
  case (Cons l ls)
  then show ?case
    by (cases "hasButton b l") (auto simp: addLogToUI_def dest!: Cons.IH)
qed

lemma andThen_Normal:
  "andThen out f = Normal w' \<Longrightarrow> \<exists>w1. out = Normal w1 \<and> f w1 = Normal w'"
  by (cases out) simp_all

text \<open>
  When startup returns, the page is wired, shows one row for each stored task and log in
  their stored order, and nothing has been broadcast or written: restoring writes no log.
\<close>

lemma main_startup:
  assumes "main b store = Normal w"
  shows "wired w" and "taskList w = tasks w" and "logList w = logs w"
    and "loadTasksFromStorage (loaded store) = Inr (tasks w)"
    and "loadLogsFromStorage (loaded store) = Inr (logs w)"
    and "notifications w = []" and "deliveries w = []" and "localStorage w = store"
proof -
  from assms obtain w1 w2 where 1: "new_TaskManager (loaded store) = Normal w1"
    and 2: "new_LogManager w1 = Normal w2" and 3: "init b w2 = Normal w"
    unfolding main_def by (blast dest: andThen_Normal)
  from 1 obtain ts where ts: "loadTasksFromStorage (loaded store) = Inr ts"
    and w1: "w1 = (loaded store)\<lparr>tasks := ts, taskAdded := [], taskRemoved := []\<rparr>"
    by (auto simp: new_TaskManager_def split: sum.splits)
  from 2 obtain ls where ls: "loadLogsFromStorage w1 = Inr ls" and w2: "w2 = w1\<lparr>logs := ls\<rparr>"
    by (auto simp: new_LogManager_def split: sum.splits)
  from 3 obtain w3 w4 where 4: "restoreTasks b (tasks w2) w2 = Normal w3"
    and 5: "restoreLogs b (logs w3) w3 = Normal w4"
    and w: "w = subscribe TaskRemoved OnTaskRemoved (subscribe TaskAdded OnTaskAdded
       (w4\<lparr>listeners := listeners w4 @ [AddTaskButtonClick, TaskInputKeydown]\<rparr>))"
    unfolding init_def by (blast dest: andThen_Normal)
  have w3: "w3 = w2\<lparr>taskList := taskList w2 @ tasks w2\<rparr>"
    using restoreTasks_frame [OF 4] by simp
  have w4: "w4 = w3\<lparr>logList := logList w3 @ logs w3\<rparr>"
    using restoreLogs_frame [OF 5] by simp
  have l: "loadLogsFromStorage w1 = loadLogsFromStorage (loaded store)"
    by (simp add: w1 loadLogsFromStorage_def)
  show "wired w" and "taskList w = tasks w" and "logList w = logs w" and "notifications w = []"
    and "deliveries w = []" and "localStorage w = store"
    by (simp_all add: w w4 w3 w2 w1 wired_def loaded_def)
  show "loadTasksFromStorage (loaded store) = Inr (tasks w)"
    by (simp add: w w4 w3 w2 w1 ts)
  show "loadLogsFromStorage (loaded store) = Inr (logs w)"
    using ls l by (simp add: w w4 w3 w2 w1)
qed

lemma handleAddTask_blank:
  "trim (taskInput w) = [] \<Longrightarrow>
   handleAddTask b w = Normal (w\<lparr>alerts := alerts w @ [alertText]\<rparr>)"
  by (simp add: handleAddTask_def)

lemma handleAddTask_text:
  "trim (taskInput w) \<noteq> [] \<Longrightarrow>
   handleAddTask b w
     = andThen (addTask b (trim (taskInput w)) w) (\<lambda>w'. Normal (w'\<lparr>taskInput := []\<rparr>))"
  by (simp add: handleAddTask_def)

lemma wired_frame: "subscriberFrame w w' \<Longrightarrow> wired w' = wired w"
  by (simp add: subscriberFrame_def wired_def)

lemma wired_addTask: "wired (state_of (addTask b t w)) = wired w"
proof (cases "accepts b (localStorage w) key_tasks (JSON_stringify (tasks w @ [t]))")
  case True
  show ?thesis
    unfolding addTask_accepted [OF True]
    using wired_frame [OF notify_frame [of _ TaskAdded t b]] by (simp add: wired_def)
next
  case False
  then show ?thesis by (simp add: addTask_rejected wired_def)
qed

lemma wired_removeTask: "wired (state_of (removeTask b t w)) = wired w"
proof (cases "accepts b (localStorage w) key_tasks
    (JSON_stringify (filter (\<lambda>x. x \<noteq> t) (tasks w)))")
  case True
  show ?thesis
    unfolding removeTask_accepted [OF True]
    using wired_frame [OF notify_frame [of _ TaskRemoved t b]] by (simp add: wired_def)
next
  case False
  then show ?thesis by (simp add: removeTask_rejected wired_def)
qed

lemma wired_handleAddTask: "wired (state_of (handleAddTask b w)) = wired w"
proof (cases "trim (taskInput w) = []")
  case True
  then show ?thesis by (simp add: handleAddTask_blank wired_def)
next
  case False
  show ?thesis
    using wired_addTask [of b "trim (taskInput w)" w]
    by (cases "addTask b (trim (taskInput w)) w")
       (simp_all add: handleAddTask_text [OF False] wired_def)
qed

lemma wired_onTaskDeleteClick:
  assumes "onTaskDeleteClick b i w = Some out"
  shows "wired (state_of out) = wired w"
proof -
  let ?r = "removeTask b (taskList w ! i) w"
  from assms have out:
    "out = andThen ?r (\<lambda>w'. Normal (w'\<lparr>taskList := removeRow i (taskList w')\<rparr>))"
    by (simp add: onTaskDeleteClick_def split: if_splits)
  have "wired (state_of out) = wired (state_of ?r)"
    unfolding out by (cases ?r) (simp_all add: wired_def)
  then show ?thesis by (simp add: wired_removeTask)
qed

lemma wired_onLogDeleteClick:
  "onLogDeleteClick b i w = Some out \<Longrightarrow> wired (state_of out) = wired w"
  by (auto simp: onLogDeleteClick_def wired_def removeLog_def saveLogsToStorage_def
      setItem_def split: if_splits)

section \<open>Concrete pages\<close>

lemmas run_defs =
  addTask_def removeTask_def notify_def saveTasksToStorage_def addTaskToUI_def addLogToUI_def
  addLog_def saveLogsToStorage_def setItem_def entered_def sampleBrowser_def fullBrowser_def
  sampleHasButton_def msgAdded_def msgRemoved_def ascii_def

lemma freshPage_eq:
  "main sampleBrowser Map.empty = Normal
     \<lparr>localStorage = Map.empty, tasks = [], taskAdded = [OnTaskAdded],
      taskRemoved = [OnTaskRemoved], logs = [], taskList = [], logList = [], taskInput = [],
      listeners = [AddTaskButtonClick, TaskInputKeydown], alerts = [], notifications = [],
      deliveries = []\<rparr>"
  by (simp add: main_def loaded_def new_TaskManager_def new_LogManager_def
      loadTasksFromStorage_def loadLogsFromStorage_def init_def)

lemma fullPage_eq:
  "main fullBrowser Map.empty = Normal
     \<lparr>localStorage = Map.empty, tasks = [], taskAdded = [OnTaskAdded],
      taskRemoved = [OnTaskRemoved], logs = [], taskList = [], logList = [], taskInput = [],
      listeners = [AddTaskButtonClick, TaskInputKeydown], alerts = [], notifications = [],
      deliveries = []\<rparr>"
  by (simp add: main_def loaded_def new_TaskManager_def new_LogManager_def
      loadTasksFromStorage_def loadLogsFromStorage_def init_def)

lemma freshPage_is:
  "freshPage =
     \<lparr>localStorage = Map.empty, tasks = [], taskAdded = [OnTaskAdded],
      taskRemoved = [OnTaskRemoved], logs = [], taskList = [], logList = [], taskInput = [],
      listeners = [AddTaskButtonClick, TaskInputKeydown], alerts = [], notifications = [],
      deliveries = []\<rparr>"
  by (simp add: freshPage_def freshPage_eq)

lemma fullPage_is:
  "fullPage =
     \<lparr>localStorage = Map.empty, tasks = [], taskAdded = [OnTaskAdded],
      taskRemoved = [OnTaskRemoved], logs = [], taskList = [], logList = [], taskInput = [],
      listeners = [AddTaskButtonClick, TaskInputKeydown], alerts = [], notifications = [],
      deliveries = []\<rparr>"
  by (simp add: fullPage_def fullPage_eq)

lemma wired_freshPage: "wired freshPage"
  by (simp add: freshPage_is wired_def)

lemma trim_comment: "trim (ascii ''<!--'') = ascii ''<!--''"
  by (simp add: trim_def ascii_def isWhiteSpace_def)

lemma trim_anchor: "trim (ascii ''<a title='') = ascii ''<a title=''"
  by (simp add: trim_def ascii_def isWhiteSpace_def)

lemma staleRowPage_eq:
  "staleRowPage =
     \<lparr>localStorage = [key_tasks \<mapsto> JSON_stringify []], tasks = [],
      taskAdded = [OnTaskAdded], taskRemoved = [OnTaskRemoved],
      logs = [], taskList = [ascii ''<a title=''], logList = [],
      taskInput = ascii ''<a title='',
      listeners = [AddTaskButtonClick, TaskInputKeydown], alerts = [],
      notifications = [(TaskAdded, ascii ''<a title=''), (TaskRemoved, ascii ''<a title='')],
      deliveries = [(OnTaskAdded, ascii ''<a title=''), (OnTaskRemoved, ascii ''<a title='')]\<rparr>"
  by (simp add: staleRowPage_def handleAddTask_def trim_anchor freshPage_is Let_def
      onTaskDeleteClick_def)
     (simp add: run_defs onTaskDeleteClick_def)

section \<open>The claims\<close>

text \<open>
  C1. Whatever the state, the value \<open>v\<close> and the browser, one call of \<open>removeTask v\<close>
  leaves no element equal to \<open>v\<close> in the task sequence: if \<open>v\<close> occurred \<open>N\<close> times,
  the sequence is shorter by exactly \<open>N\<close>, so for \<open>N > 1\<close> all \<open>N\<close> occurrences go in
  that single call. This holds whether the call returns or throws.
\<close>

theorem removeTask_removes_every_occurrence:
  "v \<notin> set (tasks (state_of (removeTask b v w))) \<and>
   count_list (tasks (state_of (removeTask b v w))) v = 0 \<and>
   length (tasks (state_of (removeTask b v w))) + count_list (tasks w) v = length (tasks w)"
  by (simp add: tasks_removeTask length_filter_count)

text \<open>
  C2, as amended. On a wired page, when the rows of the task \<open>t\<close> and of its log message
  render with their delete button and the store accepts the write of the tasks,
  \<open>addTask t\<close> appends to the logs exactly one entry, the template literal of the source
  with \<open>t\<close> between the quotes (\<open>msgAdded t\<close>, in French); when the store accepts the
  write of the logs as well, the call returns and the entry is stored. Likewise, when the
  row of the removal message renders and the store accepts the write of the tasks,
  \<open>removeTask t\<close> appends exactly the one entry \<open>msgRemoved t\<close>, and returns with the
  entry stored when the store accepts the write of the logs.
\<close>

theorem log_entry_of_task_event:
  assumes "wired w"
  shows "(hasButton b t \<and> hasButton b (msgAdded t) \<and>
          accepts b (localStorage w) key_tasks (JSON_stringify (tasks w @ [t])) \<longrightarrow>
            logs (state_of (addTask b t w)) = logs w @ [msgAdded t] \<and>
            (accepts b ((localStorage w)(key_tasks \<mapsto> JSON_stringify (tasks w @ [t])))
               key_logs (JSON_stringify (logs w @ [msgAdded t])) \<longrightarrow>
               thrown (addTask b t w) = None \<and>
               localStorage (state_of (addTask b t w)) key_logs
                 = Some (JSON_stringify (logs w @ [msgAdded t])))) \<and>
         (hasButton b (msgRemoved t) \<and>
          accepts b (localStorage w) key_tasks
            (JSON_stringify (filter (\<lambda>x. x \<noteq> t) (tasks w))) \<longrightarrow>
            logs (state_of (removeTask b t w)) = logs w @ [msgRemoved t] \<and>
            (accepts b
               ((localStorage w)(key_tasks \<mapsto> JSON_stringify (filter (\<lambda>x. x \<noteq> t) (tasks w))))
               key_logs (JSON_stringify (logs w @ [msgRemoved t])) \<longrightarrow>
               thrown (removeTask b t w) = None \<and>
               localStorage (state_of (removeTask b t w)) key_logs
                 = Some (JSON_stringify (logs w @ [msgRemoved t]))))"
proof (intro conjI impI)
  assume h: "hasButton b t \<and> hasButton b (msgAdded t) \<and>
    accepts b (localStorage w) key_tasks (JSON_stringify (tasks w @ [t]))"
  then show "logs (state_of (addTask b t w)) = logs w @ [msgAdded t]"
    using assms
    by (simp add: wired_def addTask_accepted notify_def addTaskToUI_def addLogToUI_def
        entered_def logs_addLog andThen_forEach_Nil)
  assume "accepts b ((localStorage w)(key_tasks \<mapsto> JSON_stringify (tasks w @ [t])))
    key_logs (JSON_stringify (logs w @ [msgAdded t]))"
  with h assms show "thrown (addTask b t w) = None"
    and "localStorage (state_of (addTask b t w)) key_logs
           = Some (JSON_stringify (logs w @ [msgAdded t]))"
    by (simp_all add: wired_def addTask_accepted notify_def addTaskToUI_def addLogToUI_def
        entered_def addLog_accepted andThen_forEach_Nil)
next
  assume h: "hasButton b (msgRemoved t) \<and>
    accepts b (localStorage w) key_tasks (JSON_stringify (filter (\<lambda>x. x \<noteq> t) (tasks w)))"
  then show "logs (state_of (removeTask b t w)) = logs w @ [msgRemoved t]"
    using assms
    by (simp add: wired_def removeTask_accepted notify_def addLogToUI_def entered_def logs_addLog
        andThen_forEach_Nil)
  assume "accepts b
    ((localStorage w)(key_tasks \<mapsto> JSON_stringify (filter (\<lambda>x. x \<noteq> t) (tasks w))))
    key_logs (JSON_stringify (logs w @ [msgRemoved t]))"
  with h assms show "thrown (removeTask b t w) = None"
    and "localStorage (state_of (removeTask b t w)) key_logs
           = Some (JSON_stringify (logs w @ [msgRemoved t]))"
    by (simp_all add: wired_def removeTask_accepted notify_def addLogToUI_def entered_def
        addLog_accepted andThen_forEach_Nil)
qed

theorem log_entry_of_task_event_witness:
  "wired freshPage \<and>
   hasButton sampleBrowser (ascii ''Buy milk'') \<and>
   hasButton sampleBrowser (msgAdded (ascii ''Buy milk'')) \<and>
   hasButton sampleBrowser (msgRemoved (ascii ''Buy milk'')) \<and>
   accepts sampleBrowser (localStorage freshPage) key_tasks
     (JSON_stringify (tasks freshPage @ [ascii ''Buy milk''])) \<and>
   thrown (addTask sampleBrowser (ascii ''Buy milk'') freshPage) = None \<and>
   logs (state_of (addTask sampleBrowser (ascii ''Buy milk'') freshPage))
     = logs freshPage @ [msgAdded (ascii ''Buy milk'')] \<and>
   thrown (removeTask sampleBrowser (ascii ''Buy milk'') freshPage) = None \<and>
   logs (state_of (removeTask sampleBrowser (ascii ''Buy milk'') freshPage))
     = logs freshPage @ [msgRemoved (ascii ''Buy milk'')]"
proof -
  have s: "hasButton sampleBrowser (ascii ''Buy milk'')"
    "hasButton sampleBrowser (msgAdded (ascii ''Buy milk''))"
    "hasButton sampleBrowser (msgRemoved (ascii ''Buy milk''))"
    by (simp_all add: sampleBrowser_def sampleHasButton_def msgAdded_def msgRemoved_def ascii_def)
  have a: "\<And>store key val. accepts sampleBrowser store key val"
    by (simp add: sampleBrowser_def)
  show ?thesis
    using log_entry_of_task_event [OF wired_freshPage, of sampleBrowser "ascii ''Buy milk''"]
      s a wired_freshPage
    by simp
qed

text \<open>
  The entry written for the task \<open>Buy milk\<close> on the fresh page is not the English
  sentence \<open>Task added: "Buy milk"\<close>.
\<close>

theorem english_template_counterexample:
  "logs (state_of (addTask sampleBrowser (ascii ''Buy milk'') freshPage))
     \<noteq> logs freshPage @ [ascii ''Task added: '' @ [0x22] @ ascii ''Buy milk'' @ [0x22]]"
  by (simp add: freshPage_is run_defs)

text \<open>
  C3, as amended. After each of the four mutating operations whose write the store
  accepts, that is, in which \<open>localStorage.setItem\<close> does not throw, the value stored
  under the key of the collection is the serialization of the sequence in memory:
  \<open>addTask\<close> and \<open>removeTask\<close> for the tasks, whatever the subscribers do afterwards,
  \<open>addLog\<close> and \<open>removeLog\<close> for the logs, which then return.
\<close>

theorem store_mirrors_memory_after_accepted_write:
  "(accepts b (localStorage w) key_tasks (JSON_stringify (tasks w @ [t])) \<longrightarrow>
      localStorage (state_of (addTask b t w)) key_tasks
        = Some (JSON_stringify (tasks (state_of (addTask b t w))))) \<and>
   (accepts b (localStorage w) key_tasks (JSON_stringify (filter (\<lambda>x. x \<noteq> t) (tasks w))) \<longrightarrow>
      localStorage (state_of (removeTask b t w)) key_tasks
        = Some (JSON_stringify (tasks (state_of (removeTask b t w))))) \<and>
   (accepts b (localStorage w) key_logs (JSON_stringify (logs w @ [l])) \<longrightarrow>
      thrown (addLog b l w) = None \<and>
      localStorage (state_of (addLog b l w)) key_logs
        = Some (JSON_stringify (logs (state_of (addLog b l w))))) \<and>
   (accepts b (localStorage w) key_logs (JSON_stringify (filter (\<lambda>x. x \<noteq> l) (logs w))) \<longrightarrow>
      thrown (removeLog b l w) = None \<and>
      localStorage (state_of (removeLog b l w)) key_logs
        = Some (JSON_stringify (logs (state_of (removeLog b l w)))))"
  by (simp add: stored_addTask tasks_addTask stored_removeTask tasks_removeTask
      addLog_accepted removeLog_accepted)

theorem store_mirrors_memory_after_accepted_write_witness:
  "accepts sampleBrowser (localStorage freshPage) key_tasks
     (JSON_stringify (tasks freshPage @ [ascii ''Buy milk''])) \<and>
   localStorage (state_of (addTask sampleBrowser (ascii ''Buy milk'') freshPage)) key_tasks
     = Some (JSON_stringify [ascii ''Buy milk'']) \<and>
   tasks (state_of (addTask sampleBrowser (ascii ''Buy milk'') freshPage)) = [ascii ''Buy milk''] \<and>
   accepts sampleBrowser (localStorage freshPage) key_tasks
     (JSON_stringify (filter (\<lambda>x. x \<noteq> ascii ''Buy milk'') (tasks freshPage))) \<and>
   localStorage (state_of (removeTask sampleBrowser (ascii ''Buy milk'') freshPage)) key_tasks
     = Some (JSON_stringify []) \<and>
   accepts sampleBrowser (localStorage freshPage) key_logs
     (JSON_stringify (logs freshPage @ [ascii ''x''])) \<and>
   localStorage (state_of (addLog sampleBrowser (ascii ''x'') freshPage)) key_logs
     = Some (JSON_stringify [ascii ''x'']) \<and>
   accepts sampleBrowser (localStorage freshPage) key_logs
     (JSON_stringify (filter (\<lambda>x. x \<noteq> ascii ''x'') (logs freshPage))) \<and>
   localStorage (state_of (removeLog sampleBrowser (ascii ''x'') freshPage)) key_logs
     = Some (JSON_stringify [])"
proof -
  have a: "\<And>store key val. accepts sampleBrowser store key val"
    by (simp add: sampleBrowser_def)
  have p: "tasks freshPage = []" "logs freshPage = []"
    by (simp_all add: freshPage_is)
  show ?thesis
    using store_mirrors_memory_after_accepted_write
      [of sampleBrowser freshPage "ascii ''Buy milk''" "ascii ''x''"] a
    by (simp add: p tasks_addTask tasks_removeTask logs_addLog logs_removeLog)
qed

text \<open>
  On the page whose store takes no write, \<open>addTask\<close> pushes the task and \<open>setItem\<close>
  throws: the task is in memory and the store does not hold the serialization of the
  sequence.
\<close>

theorem rejected_write_leaves_store_behind:
  "localStorage (state_of (addTask fullBrowser (ascii ''Buy milk'') fullPage)) key_tasks
     \<noteq> Some (JSON_stringify (tasks (state_of (addTask fullBrowser (ascii ''Buy milk'') fullPage))))"
  by (simp add: fullPage_is addTask_def saveTasksToStorage_def setItem_def
      fullBrowser_def)

text \<open>
  C4, at the input where the code departs from it. On the fresh page the entry field
  holds \<open><!--\<close>, whose trim is not empty. The submit gesture calls \<open>addTask\<close> with that
  text, the task is appended and stored, the subscriber throws a \<open>TypeError\<close> while
  rendering the row, and the statement that clears the entry field is not reached: the
  field still holds the text, and no log entry was written.
\<close>

theorem submit_comment_opener_keeps_field:
  "trim (ascii ''<!--'') \<noteq> [] \<and>
   thrown (handleAddTask sampleBrowser (freshPage\<lparr>taskInput := ascii ''<!--''\<rparr>))
     = Some TypeError \<and>
   tasks (state_of (handleAddTask sampleBrowser (freshPage\<lparr>taskInput := ascii ''<!--''\<rparr>)))
     = [ascii ''<!--''] \<and>
   taskInput (state_of (handleAddTask sampleBrowser (freshPage\<lparr>taskInput := ascii ''<!--''\<rparr>)))
     = ascii ''<!--'' \<and>
   logs (state_of (handleAddTask sampleBrowser (freshPage\<lparr>taskInput := ascii ''<!--''\<rparr>)))
     = []"
  by (simp add: handleAddTask_def trim_comment freshPage_is Let_def)
     (simp add: run_defs)

text \<open>
  C5, as amended. Whatever the state, the string \<open>t\<close> and the browser, \<open>addTask t\<close>
  leaves the task sequence equal to the old one with \<open>t\<close> appended. When the store
  accepts the write, it holds the serialization of that sequence under the key of the
  tasks, and the notification "added, carrying \<open>t\<close>" is broadcast exactly once: the
  history of broadcasts grows by that single entry, and the subscribers of \<open>taskAdded\<close>
  are called with \<open>t\<close> in their order, each at most once, the first of them always, and
  all of them when none throws.
\<close>

theorem addTask_appends_persists_notifies:
  "tasks (state_of (addTask b t w)) = tasks w @ [t] \<and>
   (accepts b (localStorage w) key_tasks (JSON_stringify (tasks w @ [t])) \<longrightarrow>
      localStorage (state_of (addTask b t w)) key_tasks
        = Some (JSON_stringify (tasks w @ [t])) \<and>
      notifications (state_of (addTask b t w)) = notifications w @ [(TaskAdded, t)] \<and>
      prefix (deliveries w) (deliveries (state_of (addTask b t w))) \<and>
      prefix (deliveries (state_of (addTask b t w)))
        (deliveries w @ map (\<lambda>fn. (fn, t)) (taskAdded w)) \<and>
      (taskAdded w \<noteq> [] \<longrightarrow> deliveries (state_of (addTask b t w)) \<noteq> deliveries w) \<and>
      (thrown (addTask b t w) = None \<longrightarrow>
         deliveries (state_of (addTask b t w))
           = deliveries w @ map (\<lambda>fn. (fn, t)) (taskAdded w)))"
proof (intro conjI impI)
  show "tasks (state_of (addTask b t w)) = tasks w @ [t]"
    by (rule tasks_addTask)
next
  assume a: "accepts b (localStorage w) key_tasks (JSON_stringify (tasks w @ [t]))"
  show "localStorage (state_of (addTask b t w)) key_tasks = Some (JSON_stringify (tasks w @ [t]))"
    by (rule stored_addTask [OF a])
  show "notifications (state_of (addTask b t w)) = notifications w @ [(TaskAdded, t)]"
    by (rule notifications_addTask [OF a])
  show "prefix (deliveries w) (deliveries (state_of (addTask b t w)))"
    by (rule deliveries_addTask(1) [OF a])
  show "prefix (deliveries (state_of (addTask b t w)))
          (deliveries w @ map (\<lambda>fn. (fn, t)) (taskAdded w))"
    by (rule deliveries_addTask(2) [OF a])
  show "deliveries (state_of (addTask b t w)) \<noteq> deliveries w" if "taskAdded w \<noteq> []"
    using deliveries_addTask(3) [OF a] that by blast
  show "deliveries (state_of (addTask b t w)) = deliveries w @ map (\<lambda>fn. (fn, t)) (taskAdded w)"
    if "thrown (addTask b t w) = None"
    using deliveries_addTask(4) [OF a] that by blast
qed

theorem addTask_appends_persists_notifies_witness:
  "accepts sampleBrowser (localStorage freshPage) key_tasks
     (JSON_stringify (tasks freshPage @ [ascii ''Buy milk''])) \<and>
   taskAdded freshPage \<noteq> [] \<and>
   thrown (addTask sampleBrowser (ascii ''Buy milk'') freshPage) = None \<and>
   tasks (state_of (addTask sampleBrowser (ascii ''Buy milk'') freshPage)) = [ascii ''Buy milk''] \<and>
   localStorage (state_of (addTask sampleBrowser (ascii ''Buy milk'') freshPage)) key_tasks
     = Some (JSON_stringify [ascii ''Buy milk'']) \<and>
   notifications (state_of (addTask sampleBrowser (ascii ''Buy milk'') freshPage))
     = [(TaskAdded, ascii ''Buy milk'')] \<and>
   deliveries (state_of (addTask sampleBrowser (ascii ''Buy milk'') freshPage))
     = [(OnTaskAdded, ascii ''Buy milk'')] \<and>
   taskList (state_of (addTask sampleBrowser (ascii ''Buy milk'') freshPage))
     = [ascii ''Buy milk'']"
proof -
  have a: "\<And>store key val. accepts sampleBrowser store key val"
    by (simp add: sampleBrowser_def)
  have p: "tasks freshPage = []" "notifications freshPage = []" "deliveries freshPage = []"
    "taskAdded freshPage = [OnTaskAdded]"
    by (simp_all add: freshPage_is)
  have r: "thrown (addTask sampleBrowser (ascii ''Buy milk'') freshPage) = None"
    "taskList (state_of (addTask sampleBrowser (ascii ''Buy milk'') freshPage))
       = [ascii ''Buy milk'']"
    by (simp_all add: freshPage_is run_defs)
  show ?thesis
    using addTask_appends_persists_notifies [of sampleBrowser "ascii ''Buy milk''" freshPage] a r
    by (simp add: p)
qed

text \<open>
  On the page whose store takes no write, \<open>addTask\<close> pushes the task, \<open>setItem\<close>
  throws, and \<open>notify\<close> is not reached: nothing is persisted and nothing is broadcast.
\<close>

theorem addTask_on_full_store_counterexample:
  "localStorage (state_of (addTask fullBrowser (ascii ''Buy milk'') fullPage)) key_tasks
     \<noteq> Some (JSON_stringify (tasks fullPage @ [ascii ''Buy milk''])) \<and>
   notifications (state_of (addTask fullBrowser (ascii ''Buy milk'') fullPage))
     \<noteq> notifications fullPage @ [(TaskAdded, ascii ''Buy milk'')]"
  by (simp add: fullPage_is addTask_def saveTasksToStorage_def setItem_def
      fullBrowser_def)



text \<open>
  C7. When the store holds nothing under the key of a collection, loading yields the
  empty sequence, and the constructor of that manager returns, without throwing, a
  manager whose collection is empty.
\<close>

theorem absent_key_loads_empty:
  "(localStorage w key_tasks = None \<longrightarrow>
      loadTasksFromStorage w = Inr [] \<and>
      new_TaskManager w = Normal (w\<lparr>tasks := [], taskAdded := [], taskRemoved := []\<rparr>)) \<and>
   (localStorage w key_logs = None \<longrightarrow>
      loadLogsFromStorage w = Inr [] \<and> new_LogManager w = Normal (w\<lparr>logs := []\<rparr>))"
  by (simp add: loadTasksFromStorage_def new_TaskManager_def loadLogsFromStorage_def
      new_LogManager_def)

theorem absent_key_loads_empty_witness:
  "localStorage (loaded Map.empty) key_tasks = None \<and>
   localStorage (loaded Map.empty) key_logs = None \<and>
   loadTasksFromStorage (loaded Map.empty) = Inr [] \<and>
   thrown (new_TaskManager (loaded Map.empty)) = None \<and>
   tasks (state_of (new_TaskManager (loaded Map.empty))) = [] \<and>
   loadLogsFromStorage (loaded Map.empty) = Inr [] \<and>
   thrown (new_LogManager (loaded Map.empty)) = None \<and>
   logs (state_of (new_LogManager (loaded Map.empty))) = []"
  using absent_key_loads_empty [of "loaded Map.empty"] by (simp add: loaded_def)

text \<open>
  C8. \<open>removeLog\<close> broadcasts nothing, calls no subscriber and appends nothing: the two
  histories are unchanged and the logs afterwards are the old logs with elements deleted,
  whether \<open>setItem\<close> returns or throws. The click on the delete button of a log row is a
  call of \<open>removeLog\<close> with the text of the row, followed by the removal of the row; the
  same holds of it, and it returns, with the row removed, when the store accepts the
  write.
\<close>

theorem removeLog_appends_nothing:
  "notifications (state_of (removeLog b l w)) = notifications w \<and>
   deliveries (state_of (removeLog b l w)) = deliveries w \<and>
   subseq (logs (state_of (removeLog b l w))) (logs w) \<and>
   tasks (state_of (removeLog b l w)) = tasks w \<and>
   (i < length (logList w) \<longrightarrow>
      notifications (state_of (the (onLogDeleteClick b i w))) = notifications w \<and>
      deliveries (state_of (the (onLogDeleteClick b i w))) = deliveries w \<and>
      subseq (logs (state_of (the (onLogDeleteClick b i w)))) (logs w) \<and>
      (accepts b (localStorage w) key_logs
         (JSON_stringify (filter (\<lambda>x. x \<noteq> logList w ! i) (logs w))) \<longrightarrow>
         thrown (the (onLogDeleteClick b i w)) = None \<and>
         state_of (the (onLogDeleteClick b i w))
           = (state_of (removeLog b (logList w ! i) w))\<lparr>logList := removeRow i (logList w)\<rparr>))"
  by (simp add: logs_removeLog notifications_removeLog deliveries_removeLog tasks_removeLog)
     (simp add: onLogDeleteClick_def removeLog_def saveLogsToStorage_def setItem_def)

theorem removeLog_appends_nothing_witness:
  "0 < length (logList (state_of (addTask sampleBrowser (ascii ''Buy milk'') freshPage))) \<and>
   thrown (the (onLogDeleteClick sampleBrowser 0
     (state_of (addTask sampleBrowser (ascii ''Buy milk'') freshPage)))) = None \<and>
   logs (state_of (the (onLogDeleteClick sampleBrowser 0
     (state_of (addTask sampleBrowser (ascii ''Buy milk'') freshPage))))) = [] \<and>
   logList (state_of (the (onLogDeleteClick sampleBrowser 0
     (state_of (addTask sampleBrowser (ascii ''Buy milk'') freshPage))))) = [] \<and>
   notifications (state_of (the (onLogDeleteClick sampleBrowser 0
     (state_of (addTask sampleBrowser (ascii ''Buy milk'') freshPage)))))
     = [(TaskAdded, ascii ''Buy milk'')]"
proof -
  let ?w = "state_of (addTask sampleBrowser (ascii ''Buy milk'') freshPage)"
  have w: "logList ?w = [msgAdded (ascii ''Buy milk'')]"
    "logs ?w = [msgAdded (ascii ''Buy milk'')]"
    "notifications ?w = [(TaskAdded, ascii ''Buy milk'')]"
    by (simp_all add: freshPage_is run_defs)
  have a: "\<And>store key val. accepts sampleBrowser store key val"
    by (simp add: sampleBrowser_def)
  show ?thesis
    using removeLog_appends_nothing [of sampleBrowser "msgAdded (ascii ''Buy milk'')" ?w 0] w a
    by (simp add: logs_removeLog removeRow_def)
qed

text \<open>
  C9, at the input where the code departs from it. On the page where the task
  \<open><a title=\<close> has been submitted and the delete button of its row clicked once, the
  task is no longer in the task sequence while its row is still shown. Clicking the
  button again calls \<open>removeTask\<close> with the absent value: the sequence stays as it is,
  the "removed" notification is broadcast, and the subscriber throws a \<open>TypeError\<close>
  while rendering the log row, so that no log entry is appended.
\<close>

theorem removal_of_absent_task_without_log_entry:
  "ascii ''<a title='' \<notin> set (tasks staleRowPage) \<and>
   taskList staleRowPage = [ascii ''<a title=''] \<and>
   wired staleRowPage \<and>
   thrown (the (onTaskDeleteClick sampleBrowser 0 staleRowPage)) = Some TypeError \<and>
   state_of (the (onTaskDeleteClick sampleBrowser 0 staleRowPage))
     = state_of (removeTask sampleBrowser (ascii ''<a title='') staleRowPage) \<and>
   tasks (state_of (removeTask sampleBrowser (ascii ''<a title='') staleRowPage))
     = tasks staleRowPage \<and>
   notifications (state_of (removeTask sampleBrowser (ascii ''<a title='') staleRowPage))
     = notifications staleRowPage @ [(TaskRemoved, ascii ''<a title='')] \<and>
   logs (state_of (removeTask sampleBrowser (ascii ''<a title='') staleRowPage))
     = logs staleRowPage"
  by (simp add: staleRowPage_eq wired_def onTaskDeleteClick_def)
     (simp add: run_defs)

text \<open>
  What does hold of the removal of an absent value, for every state, value and browser:
  the sequence is unchanged, and when the store accepts the write the stored copy is
  written again and one "removed" notification is broadcast.
\<close>

lemma removeTask_absent:
  assumes "v \<notin> set (tasks w)"
  shows "tasks (state_of (removeTask b v w)) = tasks w"
    and "accepts b (localStorage w) key_tasks (JSON_stringify (tasks w)) \<longrightarrow>
           localStorage (state_of (removeTask b v w)) key_tasks
             = Some (JSON_stringify (tasks w)) \<and>
           notifications (state_of (removeTask b v w)) = notifications w @ [(TaskRemoved, v)]"
proof -
  have f: "filter (\<lambda>x. x \<noteq> v) (tasks w) = tasks w"
    using assms by (simp add: filter_id_conv) blast
  then show "tasks (state_of (removeTask b v w)) = tasks w"
    by (simp add: tasks_removeTask)
  show "accepts b (localStorage w) key_tasks (JSON_stringify (tasks w)) \<longrightarrow>
           localStorage (state_of (removeTask b v w)) key_tasks
             = Some (JSON_stringify (tasks w)) \<and>
           notifications (state_of (removeTask b v w)) = notifications w @ [(TaskRemoved, v)]"
    using stored_removeTask [of b w v] notifications_removeTask [of b w v] by (simp add: f)
qed

text \<open>
  C10. \<open>removeTask v\<close> and \<open>removeLog v\<close> leave the sequence that results from
  deleting every element equal to \<open>v\<close>, the other elements in their old order: it is
  \<open>removeAll v\<close> of the old sequence, and a subsequence of it.
\<close>

theorem remove_keeps_order:
  "tasks (state_of (removeTask b v w)) = removeAll v (tasks w) \<and>
   subseq (tasks (state_of (removeTask b v w))) (tasks w) \<and>
   logs (state_of (removeLog b v w)) = removeAll v (logs w) \<and>
   subseq (logs (state_of (removeLog b v w))) (logs w)"
proof -
  have f: "\<And>xs. filter (\<lambda>x. x \<noteq> v) xs = removeAll v xs"
    by (simp add: removeAll_filter_not_eq) metis
  show ?thesis
    unfolding tasks_removeTask logs_removeLog by (simp add: f [symmetric])
qed

end
